theory Spec2Isabelle
  imports Complex_Main "HOL-Library.Multiset"
begin

text \<open>
  A shallow embedding of \<open>script_for_csv.py\<close>, the generator of reports from CSV files:
  \<open>CSVReader.read_csv_files\<close>, \<open>PerformanceReport.generate\<close>, \<open>ReportFactory\<close> and
  \<open>main\<close>. Exceptions are values of the type \<open>pyerror\<close>, returned on the left of a sum.
  The definitions come first; the properties of the specification follow, each under
  the number of its claim.
\<close>

section \<open>Python values used by the report generator\<close>

text \<open>
  A Python \<open>str\<close> is modelled as a \<open>string\<close>; the model covers the code points below 256.
  \<open>py_isspace\<close> is \<open>str.isspace\<close> on one character of that range, \<open>strip\<close> is
  \<open>str.strip()\<close> without arguments and \<open>lower\<close> is \<open>str.lower()\<close>.
\<close>

definition py_isspace :: "char \<Rightarrow> bool" where
  "py_isspace c =
     (c \<in> set [CHR 0x09, CHR 0x0A, CHR 0x0B, CHR 0x0C, CHR 0x0D, CHR 0x1C, CHR 0x1D, CHR 0x1E,
                CHR 0x1F, CHR 0x20, CHR 0x85, CHR 0xA0])"

definition strip :: "string \<Rightarrow> string" where
  "strip s = rev (dropWhile py_isspace (rev (dropWhile py_isspace s)))"

definition uppercase :: string where
  "uppercase = ''ABCDEFGHIJKLMNOPQRSTUVWXYZ'' @
     [CHR 0xC0, CHR 0xC1, CHR 0xC2, CHR 0xC3, CHR 0xC4, CHR 0xC5, CHR 0xC6, CHR 0xC7,
      CHR 0xC8, CHR 0xC9, CHR 0xCA, CHR 0xCB, CHR 0xCC, CHR 0xCD, CHR 0xCE, CHR 0xCF,
      CHR 0xD0, CHR 0xD1, CHR 0xD2, CHR 0xD3, CHR 0xD4, CHR 0xD5, CHR 0xD6, CHR 0xD8,
      CHR 0xD9, CHR 0xDA, CHR 0xDB, CHR 0xDC, CHR 0xDD, CHR 0xDE]"

definition lowercase :: string where
  "lowercase = ''abcdefghijklmnopqrstuvwxyz'' @
     [CHR 0xE0, CHR 0xE1, CHR 0xE2, CHR 0xE3, CHR 0xE4, CHR 0xE5, CHR 0xE6, CHR 0xE7,
      CHR 0xE8, CHR 0xE9, CHR 0xEA, CHR 0xEB, CHR 0xEC, CHR 0xED, CHR 0xEE, CHR 0xEF,
      CHR 0xF0, CHR 0xF1, CHR 0xF2, CHR 0xF3, CHR 0xF4, CHR 0xF5, CHR 0xF6, CHR 0xF8,
      CHR 0xF9, CHR 0xFA, CHR 0xFB, CHR 0xFC, CHR 0xFD, CHR 0xFE]"

definition lower_char :: "char \<Rightarrow> char" where
  "lower_char c = (case map_of (zip uppercase lowercase) c of Some l \<Rightarrow> l | None \<Rightarrow> c)"

definition lower :: "string \<Rightarrow> string" where
  "lower s = map lower_char s"

text \<open>
  The rows that \<open>csv.DictReader\<close> yields are dictionaries whose keys are field names or
  \<open>None\<close> (the \<open>restkey\<close>) and whose values are strings, \<open>None\<close> (the \<open>restval\<close>) or the
  list of the surplus columns. The annotation of the source is \<open>Dict[str, Any]\<close>.
\<close>

datatype pykey = KStr string | KNone

datatype pyval = VStr string | VNone | VList "string list"

type_synonym pyrecord = "pykey \<rightharpoonup> pyval"

datatype value_error =
    CsvReadError string
  | BadEncoding string
  | ReportNotFound string "string list"
  | AlreadyRegistered string

datatype pyerror =
    FileNotFoundError string
  | ValueError value_error
  | AttributeError
  | OSError string
  | NotImplementedError

section \<open>Floating point operations\<close>

text \<open>
  The report uses five operations of Python's \<open>float\<close>: the constructor \<open>float(s)\<close> on a
  string (\<open>None\<close> stands for the \<open>ValueError\<close> it raises), \<open>sum\<close> of a list of floats,
  division of a float by a length, \<open>round(x, 2)\<close> and the comparison \<open>x < y\<close>. The report
  generator takes them as a parameter, so that what is proved of it holds for every
  implementation of these operations.
\<close>

record 'f float_ops =
  float_of_str :: "string \<Rightarrow> 'f option"
  fsum :: "'f list \<Rightarrow> 'f"
  fdiv_len :: "'f \<Rightarrow> nat \<Rightarrow> 'f"
  fround2 :: "'f \<Rightarrow> 'f"
  flt :: "'f \<Rightarrow> 'f \<Rightarrow> bool"

subsection \<open>The operations of CPython on binary64\<close>

text \<open>
  A float is an IEEE 754 binary64 value: a finite value \<open>m * 2 ^ e\<close> in canonical form
  (\<open>\<bar>m\<bar> < 2 ^ 53\<close>, \<open>- 1074 \<le> e \<le> 971\<close>, and \<open>2 ^ 52 \<le> \<bar>m\<bar>\<close> unless \<open>e = - 1074\<close>;
  zero is \<open>Fin 0 0\<close>), an infinity or a NaN. The two zeros are one value here: no
  comparison tells them apart.
\<close>

datatype pyfloat = Fin int int | PosInf | NegInf | NaN

fun bit_length :: "nat \<Rightarrow> nat" where
  "bit_length n = (if n = 0 then 0 else 1 + bit_length (n div 2))"

declare bit_length.simps [simp del]

definition round_half_even :: "nat \<Rightarrow> nat \<Rightarrow> nat" where
  "round_half_even num den =
     (let q = num div den; r = num mod den
      in if den < 2 * r \<or> (2 * r = den \<and> odd q) then q + 1 else q)"

text \<open>
  \<open>round_to_double neg p q e\<close> is the binary64 value nearest to \<open>(p / q) * 2 ^ e\<close>, ties to
  even, with the sign \<open>neg\<close>; it overflows to an infinity.
\<close>

definition round_to_double :: "bool \<Rightarrow> nat \<Rightarrow> nat \<Rightarrow> int \<Rightarrow> pyfloat" where
  "round_to_double neg p q e =
     (if p = 0 then Fin 0 0
      else
        let bp = bit_length p; bq = bit_length q;
            k = int bp - int bq + e;
            t = max (if q * 2 ^ bp \<le> p * 2 ^ bq then k - 52 else k - 53) (- 1074);
            m = (if t \<le> e then round_half_even (p * 2 ^ nat (e - t)) q
                 else round_half_even p (q * 2 ^ nat (t - e)));
            m' = (if m = 2 ^ 53 then 2 ^ 52 else m);
            t' = (if m = 2 ^ 53 then t + 1 else t)
        in if m' = 0 then Fin 0 0
           else if 971 < t' then (if neg then NegInf else PosInf)
           else Fin (if neg then - int m' else int m') t')"

definition of_scaled :: "int \<Rightarrow> int \<Rightarrow> pyfloat" where
  "of_scaled n e = round_to_double (n < 0) (nat \<bar>n\<bar>) 1 e"

fun py_add :: "pyfloat \<Rightarrow> pyfloat \<Rightarrow> pyfloat" where
  "py_add (Fin m1 e1) (Fin m2 e2) =
     (if m1 = 0 then Fin m2 e2
      else if m2 = 0 then Fin m1 e1
      else of_scaled (m1 * 2 ^ nat (e1 - min e1 e2) + m2 * 2 ^ nat (e2 - min e1 e2))
             (min e1 e2))"
| "py_add NaN y = NaN"
| "py_add x NaN = NaN"
| "py_add PosInf NegInf = NaN"
| "py_add NegInf PosInf = NaN"
| "py_add PosInf y = PosInf"
| "py_add NegInf y = NegInf"
| "py_add x PosInf = PosInf"
| "py_add x NegInf = NegInf"

text \<open>
  \<open>sum\<close> adds the items from left to right, starting from zero. (CPython 3.12 and
  later carry a compensation term along, which can change the last bit of an inexact
  sum and leaves an overflowed sum infinite.)
\<close>

definition py_sum :: "pyfloat list \<Rightarrow> pyfloat" where
  "py_sum xs = foldl py_add (Fin 0 0) xs"

fun py_lt :: "pyfloat \<Rightarrow> pyfloat \<Rightarrow> bool" where
  "py_lt (Fin m1 e1) (Fin m2 e2) =
     (m1 * 2 ^ nat (e1 - min e1 e2) < m2 * 2 ^ nat (e2 - min e1 e2))"
| "py_lt NaN y = False"
| "py_lt x NaN = False"
| "py_lt NegInf y = (y \<noteq> NegInf)"
| "py_lt x PosInf = (x \<noteq> PosInf)"
| "py_lt PosInf y = False"
| "py_lt x NegInf = False"

text \<open>
  \<open>x / n\<close> for a float \<open>x\<close> and the length \<open>n\<close> of a list: \<open>n\<close> is converted to a float
  and divides \<open>x\<close>. The source divides by the length of a list that is not empty; for
  \<open>n = 0\<close>, where Python raises, the value here is NaN.
\<close>

definition py_div_len :: "pyfloat \<Rightarrow> nat \<Rightarrow> pyfloat" where
  "py_div_len x n =
     (case round_to_double False n 1 0 of
        Fin d ed \<Rightarrow>
          (if d = 0 then NaN
           else (case x of
                   Fin m e \<Rightarrow> round_to_double (m < 0) (nat \<bar>m\<bar>) (nat d) (e - ed)
                 | _ \<Rightarrow> x))
      | _ \<Rightarrow> NaN)"

text \<open>
  \<open>round(x, 2)\<close>: the exact value of \<open>x\<close> is rounded to a whole number of hundredths,
  ties to even, and that decimal is converted back to the nearest binary64 value. A
  float with \<open>0 \<le> e\<close> is a whole number and rounds to itself, as do the infinities
  and NaN.
\<close>

fun py_round2 :: "pyfloat \<Rightarrow> pyfloat" where
  "py_round2 (Fin m e) =
     (if 0 \<le> e then Fin m e
      else round_to_double (m < 0) (round_half_even (nat \<bar>m\<bar> * 100) (2 ^ nat (- e))) 100 0)"
| "py_round2 x = x"

text \<open>
  \<open>float(s)\<close> on a string: surrounding whitespace is dropped (the separators
  \<open>0x1C\<close> to \<open>0x1F\<close>, which \<open>strip\<close> drops, are not whitespace for \<open>float\<close>); an optional
  sign is followed
  by \<open>nan\<close>, \<open>inf\<close> or \<open>infinity\<close> in any letter case, or by a decimal number with an
  optional exponent, whose digits may be separated by single underscores. The decimal
  is converted to the nearest binary64 value. \<open>None\<close> is the \<open>ValueError\<close>.
\<close>

definition digit_of :: "char \<Rightarrow> nat option" where
  "digit_of c = map_of (zip ''0123456789'' [0, 1, 2, 3, 4, 5, 6, 7, 8, 9]) c"

fun digits_tail :: "string \<Rightarrow> nat list \<times> string" where
  "digits_tail [] = ([], [])"
| "digits_tail (c # cs) =
     (case digit_of c of
        Some d \<Rightarrow> (case digits_tail cs of (ds, r) \<Rightarrow> (d # ds, r))
      | None \<Rightarrow>
          if c = CHR ''_'' \<and> cs \<noteq> [] \<and> digit_of (hd cs) \<noteq> None then digits_tail cs
          else ([], c # cs))"

definition digitpart :: "string \<Rightarrow> (nat list \<times> string) option" where
  "digitpart s =
     (case s of
        [] \<Rightarrow> None
      | c # cs \<Rightarrow> if digit_of c \<noteq> None then Some (digits_tail s) else None)"

definition number :: "string \<Rightarrow> (nat list \<times> nat list \<times> string) option" where
  "number s =
     (case digitpart s of
        Some (ip, r) \<Rightarrow>
          (case r of
             [] \<Rightarrow> Some (ip, [], [])
           | c # r' \<Rightarrow>
               if c = CHR ''.'' then
                 (case digitpart r' of
                    Some (fp, r'') \<Rightarrow> Some (ip, fp, r'')
                  | None \<Rightarrow> Some (ip, [], r'))
               else Some (ip, [], r))
      | None \<Rightarrow>
          (case s of
             [] \<Rightarrow> None
           | c # r' \<Rightarrow>
               if c = CHR ''.'' then
                 (case digitpart r' of
                    Some (fp, r'') \<Rightarrow> Some ([], fp, r'')
                  | None \<Rightarrow> None)
               else None))"

definition nat_of_digits :: "nat list \<Rightarrow> nat" where
  "nat_of_digits ds = foldl (\<lambda>a d. 10 * a + d) 0 ds"

definition exponent :: "string \<Rightarrow> int option" where
  "exponent s =
     (case s of
        [] \<Rightarrow> Some 0
      | c # r \<Rightarrow>
          if c = CHR ''e'' \<or> c = CHR ''E'' then
            (let neg = (r \<noteq> [] \<and> hd r = CHR ''-'');
                 r' = (if r \<noteq> [] \<and> (hd r = CHR ''-'' \<or> hd r = CHR ''+'') then tl r else r)
             in case digitpart r' of
                  Some (ds, []) \<Rightarrow> Some (if neg then - int (nat_of_digits ds) else int (nat_of_digits ds))
                | _ \<Rightarrow> None)
          else None)"

definition decimal :: "bool \<Rightarrow> nat \<Rightarrow> int \<Rightarrow> pyfloat" where
  "decimal neg mant ex =
     (if 0 \<le> ex then round_to_double neg (mant * 10 ^ nat ex) 1 0
      else round_to_double neg mant (10 ^ nat (- ex)) 0)"

definition float_isspace :: "char \<Rightarrow> bool" where
  "float_isspace c =
     (c \<in> set [CHR 0x09, CHR 0x0A, CHR 0x0B, CHR 0x0C, CHR 0x0D, CHR 0x20, CHR 0x85, CHR 0xA0])"

definition py_float :: "string \<Rightarrow> pyfloat option" where
  "py_float s =
     (let t = rev (dropWhile float_isspace (rev (dropWhile float_isspace s)));
          neg = (t \<noteq> [] \<and> hd t = CHR ''-'');
          body = (if t \<noteq> [] \<and> (hd t = CHR ''-'' \<or> hd t = CHR ''+'') then tl t else t)
      in if lower body = ''nan'' then Some NaN
         else if lower body = ''inf'' \<or> lower body = ''infinity''
           then Some (if neg then NegInf else PosInf)
         else
           (case number body of
              None \<Rightarrow> None
            | Some (ip, fp, r) \<Rightarrow>
                (case exponent r of
                   None \<Rightarrow> None
                 | Some ex \<Rightarrow>
                     Some (decimal neg (nat_of_digits (ip @ fp)) (ex - int (length fp))))))"

definition py_ops :: "pyfloat float_ops" where
  "py_ops = \<lparr>float_of_str = py_float, fsum = py_sum, fdiv_len = py_div_len,
             fround2 = py_round2, flt = py_lt\<rparr>"

section \<open>\<open>list.sort(key=..., reverse=True)\<close>\<close>

text \<open>
  \<open>list.sort\<close> is a stable sort that compares keys with \<open><\<close> only; with \<open>reverse=True\<close>
  it reverses the list, sorts it and reverses the result. \<open>stable_sort\<close> is the stable
  insertion sort. A list in which no element is smaller than its predecessor is one
  ascending run for \<open>list.sort\<close>, which leaves it as it is, and so does \<open>stable_sort\<close>.
  The two agree whenever \<open><\<close> is a strict weak order on the keys. On other keys (a NaN
  among them) the result of \<open>list.sort\<close> depends on how it finds and merges runs, and
  the two can differ; nothing below states an order of the rows in that case.
\<close>

fun insort_lt :: "('k \<Rightarrow> 'k \<Rightarrow> bool) \<Rightarrow> ('a \<Rightarrow> 'k) \<Rightarrow> 'a \<Rightarrow> 'a list \<Rightarrow> 'a list" where
  "insort_lt lt key x [] = [x]"
| "insort_lt lt key x (y # ys) =
     (if lt (key y) (key x) then y # insort_lt lt key x ys else x # y # ys)"

definition stable_sort :: "('k \<Rightarrow> 'k \<Rightarrow> bool) \<Rightarrow> ('a \<Rightarrow> 'k) \<Rightarrow> 'a list \<Rightarrow> 'a list" where
  "stable_sort lt key xs = foldr (insort_lt lt key) xs []"

definition list_sort_reverse :: "('k \<Rightarrow> 'k \<Rightarrow> bool) \<Rightarrow> ('a \<Rightarrow> 'k) \<Rightarrow> 'a list \<Rightarrow> 'a list" where
  "list_sort_reverse lt key xs = rev (stable_sort lt key (rev xs))"

section \<open>\<open>PerformanceReport.generate\<close>\<close>

datatype 'f cell = CStr string | CNum 'f

type_synonym 'f groups = "(string \<times> 'f list) list"

text \<open>\<open>row.get(k, '').strip()\<close>: a value that is not a string has no \<open>strip\<close>.\<close>

definition get_strip :: "pyrecord \<Rightarrow> string \<Rightarrow> pyerror + string" where
  "get_strip row k =
     (case row (KStr k) of
        None \<Rightarrow> Inr (strip [])
      | Some (VStr s) \<Rightarrow> Inr (strip s)
      | Some _ \<Rightarrow> Inl AttributeError)"

text \<open>
  \<open>position_data[position].append(performance)\<close> on the \<open>defaultdict(list)\<close>, which keeps
  its keys in the order of their first insertion.
\<close>

fun append_sample :: "string \<Rightarrow> 'f \<Rightarrow> 'f groups \<Rightarrow> 'f groups" where
  "append_sample position performance [] = [(position, [performance])]"
| "append_sample position performance ((k, vs) # rest) =
     (if k = position then (k, vs @ [performance]) # rest
      else (k, vs) # append_sample position performance rest)"

text \<open>The first loop of \<open>generate\<close>, with \<open>position_data\<close> passed along.\<close>

fun collect :: "'f float_ops \<Rightarrow> pyrecord list \<Rightarrow> 'f groups \<Rightarrow> pyerror + 'f groups" where
  "collect ops [] position_data = Inr position_data"
| "collect ops (row # data) position_data =
     (case get_strip row ''position'' of
        Inl e \<Rightarrow> Inl e
      | Inr position \<Rightarrow>
         (case get_strip row ''performance'' of
            Inl e \<Rightarrow> Inl e
          | Inr performance_str \<Rightarrow>
             if position \<noteq> [] \<and> performance_str \<noteq> [] then
               (case float_of_str ops performance_str of
                  Some performance \<Rightarrow>
                    collect ops data (append_sample position performance position_data)
                | None \<Rightarrow> collect ops data position_data)
             else collect ops data position_data))"

text \<open>The second loop: one row per key whose list of samples is not empty.\<close>

definition avg_performance :: "'f float_ops \<Rightarrow> 'f list \<Rightarrow> 'f" where
  "avg_performance ops performances =
     fround2 ops (fdiv_len ops (fsum ops performances) (length performances))"

definition report_rows :: "'f float_ops \<Rightarrow> 'f groups \<Rightarrow> (string \<times> 'f) list" where
  "report_rows ops position_data =
     map (\<lambda>(position, performances). (position, avg_performance ops performances))
       (filter (\<lambda>(position, performances). performances \<noteq> []) position_data)"

definition headers :: "string list" where
  "headers = [''Position'', ''Avg Performance'']"

definition row_cells :: "string \<times> 'f \<Rightarrow> 'f cell list" where
  "row_cells r = [CStr (fst r), CNum (snd r)]"

text \<open>
  A row \<open>[position, avg]\<close> is kept as a pair while the rows are sorted by \<open>x[1]\<close> and
  becomes the two-element list when \<open>generate\<close> returns.
\<close>

definition generate :: "'f float_ops \<Rightarrow> pyrecord list \<Rightarrow> pyerror + (string list \<times> 'f cell list list)" where
  "generate ops data =
     (case collect ops data [] of
        Inl e \<Rightarrow> Inl e
      | Inr position_data \<Rightarrow>
          Inr (headers,
               map row_cells (list_sort_reverse (flt ops) snd (report_rows ops position_data))))"

section \<open>\<open>ReportFactory\<close>\<close>

text \<open>
  The classes of the source that the registry can hold. The base class \<open>ReportGenerator\<close>
  raises \<open>NotImplementedError\<close> from \<open>generate\<close>. An instance is identified with its class.
  The class attribute \<open>_reports\<close> is a dictionary, kept in insertion order.
\<close>

datatype report_class = ReportGenerator | PerformanceReport

type_synonym registry = "(string \<times> report_class) list"

definition initial_reports :: registry where
  "initial_reports = [(''performance'', PerformanceReport)]"

definition get_report :: "registry \<Rightarrow> string \<Rightarrow> pyerror + report_class" where
  "get_report reports report_name =
     (case map_of reports (lower report_name) of
        None \<Rightarrow> Inl (ValueError (ReportNotFound report_name (map fst reports)))
      | Some report_class \<Rightarrow> Inr report_class)"

definition register_report :: "registry \<Rightarrow> string \<Rightarrow> report_class \<Rightarrow> pyerror + registry" where
  "register_report reports report_name report_class =
     (if report_name \<in> set (map fst reports)
      then Inl (ValueError (AlreadyRegistered report_name))
      else Inr (reports @ [(report_name, report_class)]))"

definition list_reports :: "registry \<Rightarrow> string list" where
  "list_reports reports = map fst reports"

definition report_generate ::
  "'f float_ops \<Rightarrow> report_class \<Rightarrow> pyrecord list \<Rightarrow> pyerror + (string list \<times> 'f cell list list)" where
  "report_generate ops report_generator data =
     (case report_generator of
        ReportGenerator \<Rightarrow> Inl NotImplementedError
      | PerformanceReport \<Rightarrow> generate ops data)"

section \<open>\<open>CSVReader.read_csv_files\<close>\<close>

text \<open>
  \<open>csv.DictReader\<close> over the rows that \<open>csv.reader\<close> yields, with the defaults
  \<open>restkey=None\<close> and \<open>restval=None\<close> that the source leaves in place. With
  \<open>fieldnames=None\<close> the first row becomes the field names. Rows without any column
  (blank lines) are skipped. \<open>dict(zip(fieldnames, row))\<close> lets a later duplicate of a
  field name win.
\<close>

definition dict_zip :: "string list \<Rightarrow> string list \<Rightarrow> pyrecord" where
  "dict_zip fieldnames row =
     fold (\<lambda>(k, v) d. d(KStr k \<mapsto> VStr v)) (zip fieldnames row) Map.empty"

definition dict_row :: "string list \<Rightarrow> string list \<Rightarrow> pyrecord" where
  "dict_row fieldnames row =
     (let d = dict_zip fieldnames row; lf = length fieldnames; lr = length row
      in if lf < lr then d(KNone \<mapsto> VList (drop lf row))
         else if lf > lr then fold (\<lambda>key d. d(KStr key \<mapsto> VNone)) (drop lr fieldnames) d
         else d)"

definition DictReader :: "string list option \<Rightarrow> string list list \<Rightarrow> pyrecord list" where
  "DictReader fieldnames rows =
     (case fieldnames of
        Some names \<Rightarrow> map (dict_row names) (filter (\<lambda>row. row \<noteq> []) rows)
      | None \<Rightarrow>
         (case rows of
            [] \<Rightarrow> []
          | names # rest \<Rightarrow> map (dict_row names) (filter (\<lambda>row. row \<noteq> []) rest)))"

text \<open>
  What the reader finds at a path. Decoding, the sniffer and the splitting of lines into
  columns belong to the standard library; a file is given by their results: under UTF-8
  either the sniffer's \<open>has_header\<close> with the rows read under the sniffed dialect and
  under the default dialect, or a \<open>csv.Error\<close>, a \<open>UnicodeDecodeError\<close>, or an
  \<open>OSError\<close> from \<open>open\<close>; under cp1251 the rows of the default dialect, or \<open>None\<close>
  when that attempt raises.
\<close>

datatype utf8_read =
    Utf8Text bool "string list list" "string list list"
  | CsvError
  | DecodeError
  | OpenError

record csv_file =
  utf8 :: utf8_read
  cp1251 :: "string list list option"

type_synonym filesystem = "string \<rightharpoonup> csv_file"

definition read_file :: "string \<Rightarrow> csv_file \<Rightarrow> pyerror + pyrecord list" where
  "read_file file_path f =
     (case utf8 f of
        Utf8Text has_header sniffed excel \<Rightarrow>
          Inr (if has_header then DictReader None sniffed else DictReader None excel)
      | CsvError \<Rightarrow> Inl (ValueError (CsvReadError file_path))
      | DecodeError \<Rightarrow>
         (case cp1251 f of
            Some rows \<Rightarrow> Inr (DictReader None rows)
          | None \<Rightarrow> Inl (ValueError (BadEncoding file_path)))
      | OpenError \<Rightarrow> Inl (OSError file_path))"

fun read_csv_files :: "filesystem \<Rightarrow> string list \<Rightarrow> pyrecord list \<Rightarrow> pyerror + pyrecord list" where
  "read_csv_files fs [] all_data = Inr all_data"
| "read_csv_files fs (file_path # file_paths) all_data =
     (case fs file_path of
        None \<Rightarrow> Inl (FileNotFoundError file_path)
      | Some f \<Rightarrow>
         (case read_file file_path f of
            Inl e \<Rightarrow> Inl e
          | Inr file_data \<Rightarrow> read_csv_files fs file_paths (all_data @ file_data)))"

section \<open>\<open>main\<close>\<close>

datatype output_format = Table | Csv | Json

record args =
  files :: "string list"
  report :: string
  output_format :: output_format
  list_reports_flag :: bool

text \<open>
  What \<open>main\<close> prints: the list of reports, the warning that the files hold no data, the
  note that the report is empty, the rendered report followed by the two counts, or an
  error message on the error stream (expected or unexpected).
\<close>

datatype 'f printed =
    ReportList "string list"
  | NoDataWarning
  | EmptyReportNote
  | Rendered output_format "string list" "'f cell list list" nat nat
  | ErrorMessage pyerror
  | UnexpectedError pyerror

definition handle_error :: "pyerror \<Rightarrow> 'f printed \<times> int" where
  "handle_error e =
     (case e of
        FileNotFoundError p \<Rightarrow> (ErrorMessage e, 1)
      | ValueError v \<Rightarrow> (ErrorMessage e, 1)
      | _ \<Rightarrow> (UnexpectedError e, 1))"

definition main :: "'f float_ops \<Rightarrow> filesystem \<Rightarrow> registry \<Rightarrow> args \<Rightarrow> 'f printed \<times> int" where
  "main ops fs reports a =
     (if list_reports_flag a then (ReportList (list_reports reports), 0)
      else
        (case read_csv_files fs (files a) [] of
           Inl e \<Rightarrow> handle_error e
         | Inr data \<Rightarrow>
            if data = [] then (NoDataWarning, 1)
            else
              (case get_report reports (report a) of
                 Inl e \<Rightarrow> handle_error e
               | Inr report_generator \<Rightarrow>
                  (case report_generate ops report_generator data of
                     Inl e \<Rightarrow> handle_error e
                   | Inr (hs, rows) \<Rightarrow>
                      if rows = [] then (EmptyReportNote, 0)
                      else (Rendered (output_format a) hs rows (length data) (length rows), 0)))))"

section \<open>Notions used to state the properties\<close>

text \<open>
  A record is string-valued when what it holds under \<open>position\<close> and under \<open>performance\<close>,
  if anything, is a string.
\<close>

definition str_field :: "pyrecord \<Rightarrow> string \<Rightarrow> bool" where
  "str_field row k =
     (case row (KStr k) of None \<Rightarrow> True | Some (VStr s) \<Rightarrow> True | Some _ \<Rightarrow> False)"

definition str_valued :: "pyrecord \<Rightarrow> bool" where
  "str_valued row = (str_field row ''position'' \<and> str_field row ''performance'')"

text \<open>
  The sample a record contributes: its trimmed category and its number, when both fields
  are strings that are not empty after trimming and the number parses. A record is valid
  when it contributes a sample. \<open>samples_for\<close> lists, in the order of the records, the
  numbers of the valid records whose trimmed category is the given key.
\<close>

definition field_text :: "pyrecord \<Rightarrow> string \<Rightarrow> string" where
  "field_text row k = (case row (KStr k) of Some (VStr s) \<Rightarrow> strip s | _ \<Rightarrow> [])"

definition sample_of :: "'f float_ops \<Rightarrow> pyrecord \<Rightarrow> (string \<times> 'f) option" where
  "sample_of ops row =
     (if field_text row ''position'' \<noteq> [] \<and> field_text row ''performance'' \<noteq> []
      then map_option (Pair (field_text row ''position''))
             (float_of_str ops (field_text row ''performance''))
      else None)"

definition valid :: "'f float_ops \<Rightarrow> pyrecord \<Rightarrow> bool" where
  "valid ops row = (sample_of ops row \<noteq> None)"

definition samples :: "'f float_ops \<Rightarrow> pyrecord list \<Rightarrow> (string \<times> 'f) list" where
  "samples ops data = List.map_filter (sample_of ops) data"

definition group_of :: "(string \<times> 'f) list \<Rightarrow> string \<Rightarrow> 'f list" where
  "group_of ss k = map snd (filter (\<lambda>s. fst s = k) ss)"

definition samples_for :: "'f float_ops \<Rightarrow> pyrecord list \<Rightarrow> string \<Rightarrow> 'f list" where
  "samples_for ops data k = group_of (samples ops data) k"

text \<open>The keys of a list of samples in the order of their first occurrence, and the groups.\<close>

definition first_occ :: "'a list \<Rightarrow> 'a list" where
  "first_occ xs = rev (remdups (rev xs))"

definition groups_of :: "(string \<times> 'f) list \<Rightarrow> 'f groups" where
  "groups_of ss = map (\<lambda>k. (k, group_of ss k)) (first_occ (map fst ss))"

definition add_samples :: "(string \<times> 'f) list \<Rightarrow> 'f groups \<Rightarrow> 'f groups" where
  "add_samples ss pd = fold (\<lambda>s. append_sample (fst s) (snd s)) ss pd"

text \<open>
  The comparison \<open>lt\<close> orders the set \<open>A\<close> when, on \<open>A\<close>, it is asymmetric and
  \<open>a < c\<close> implies \<open>a < b\<close> or \<open>b < c\<close>: a strict weak order. The comparison of floats is
  one on every set of floats without NaN.
\<close>

definition swo_on :: "('k \<Rightarrow> 'k \<Rightarrow> bool) \<Rightarrow> 'k set \<Rightarrow> bool" where
  "swo_on lt A =
     (\<forall>a\<in>A. \<forall>b\<in>A. (lt a b \<longrightarrow> \<not> lt b a) \<and> (\<forall>c\<in>A. lt a c \<longrightarrow> lt a b \<or> lt b c))"

text \<open>The numbers in a row, and "row \<open>r\<close> has a smaller average than row \<open>s\<close>".\<close>

fun cell_nums :: "'f cell list \<Rightarrow> 'f list" where
  "cell_nums [] = []"
| "cell_nums (CNum a # cs) = a # cell_nums cs"
| "cell_nums (CStr k # cs) = cell_nums cs"

definition row_lt :: "('f \<Rightarrow> 'f \<Rightarrow> bool) \<Rightarrow> 'f cell list \<Rightarrow> 'f cell list \<Rightarrow> bool" where
  "row_lt lt r s = (\<exists>a \<in> set (cell_nums r). \<exists>b \<in> set (cell_nums s). lt a b)"



section \<open>The registry\<close>

text \<open>
  Claim C4 (registry names are case-insensitive for registration and lookup). The code
  compares names exactly in \<open>register_report\<close> and stores them as given, while
  \<open>get_report\<close> looks up the lower-cased name. So with \<open>performance\<close> present, registering
  \<open>Performance\<close> succeeds instead of failing as a duplicate, and a report registered as
  \<open>Skills\<close> is in the registry but is found under no spelling of its name.
\<close>

theorem register_report_is_case_sensitive:
  "register_report initial_reports ''Performance'' ReportGenerator =
     Inr [(''performance'', PerformanceReport), (''Performance'', ReportGenerator)]
   \<and> register_report initial_reports ''Skills'' PerformanceReport =
     Inr [(''performance'', PerformanceReport), (''Skills'', PerformanceReport)]
   \<and> get_report [(''performance'', PerformanceReport), (''Skills'', PerformanceReport)] ''Skills'' =
     Inl (ValueError (ReportNotFound ''Skills'' [''performance'', ''Skills'']))
   \<and> get_report [(''performance'', PerformanceReport), (''Skills'', PerformanceReport)] ''skills'' =
     Inl (ValueError (ReportNotFound ''skills'' [''performance'', ''Skills'']))"
  by (simp add: register_report_def initial_reports_def get_report_def lower_def lower_char_def
      uppercase_def lowercase_def)

section \<open>Ingestion\<close>

text \<open>
  Claim C5 (without a detected header, positional names \<open>field_0\<close>, \<open>field_1\<close>, ... are
  synthesized and every row, the first included, is a data record). The code builds
  \<open>csv.DictReader(file, fieldnames=None)\<close> in that branch, which takes the first row as
  the field names: the file with the two rows \<open>1,2\<close> and \<open>3,4\<close> gives the single record
  \<open>{'1': '3', '2': '4'}\<close>.
\<close>

theorem no_header_first_row_is_consumed:
  "read_csv_files
     [''data.csv'' \<mapsto> \<lparr>utf8 = Utf8Text False [[''1'', ''2''], [''3'', ''4'']] [[''1'', ''2''], [''3'', ''4'']],
                         cp1251 = None\<rparr>]
     [''data.csv''] []
   = Inr [[KStr ''1'' \<mapsto> VStr ''3'', KStr ''2'' \<mapsto> VStr ''4'']]"
  by (simp add: read_file_def DictReader_def dict_row_def dict_zip_def)

lemma dom_dict_zip: "dom (dict_zip fieldnames row) = KStr ` fst ` set (zip fieldnames row)"
proof -
  have "dom (fold (\<lambda>(k, v) d. d(KStr k \<mapsto> VStr v)) ps d) = dom d \<union> KStr ` fst ` set ps"
    for ps :: "(string \<times> string) list" and d :: pyrecord
    by (induction ps arbitrary: d) (auto split: prod.splits)
  then show ?thesis by (simp add: dict_zip_def)
qed

lemma dict_zip_KNone: "dict_zip fieldnames row KNone = None"
  using dom_dict_zip [of fieldnames row] by (auto simp: dom_def)

lemma fold_restval_dom:
  "dom (fold (\<lambda>key d. d(KStr key \<mapsto> VNone)) ks d) = dom d \<union> KStr ` set ks"
  by (induction ks arbitrary: d) auto

lemma fold_restval_in:
  "k \<in> set ks \<Longrightarrow> fold (\<lambda>key d. d(KStr key \<mapsto> VNone)) ks d (KStr k) = Some VNone"
proof (induction ks arbitrary: d rule: rev_induct)
  case Nil
  then show ?case by simp
next
  case (snoc x ks)
  then show ?case by (cases "x = k") auto
qed

lemma fst_set_zip: "fst ` set (zip xs ys) = set (take (length ys) xs)"
proof (induction xs arbitrary: ys)
  case Nil
  show ?case by simp
next
  case (Cons x xs)
  show ?case by (cases ys) (auto simp: Cons.IH)
qed

lemma dict_row_field_keys:
  "KStr k \<in> dom (dict_row fieldnames row) \<longleftrightarrow> k \<in> set fieldnames"
proof -
  have split: "set fieldnames = set (take (length row) fieldnames) \<union> set (drop (length row) fieldnames)"
    by (metis append_take_drop_id set_append)
  show ?thesis
  proof (cases "length row < length fieldnames")
    case True
    then show ?thesis
      using split
      by (auto simp: dict_row_def Let_def fold_restval_dom dom_dict_zip fst_set_zip image_iff)
  next
    case False
    then have "take (length row) fieldnames = fieldnames" by simp
    then show ?thesis
      using False
      by (auto simp: dict_row_def Let_def dom_dict_zip fst_set_zip image_iff)
  qed
qed

lemma dict_row_surplus:
  "length fieldnames < length row \<Longrightarrow>
   dict_row fieldnames row KNone = Some (VList (drop (length fieldnames) row))"
  by (simp add: dict_row_def Let_def)

lemma dict_row_missing:
  "length row < length fieldnames \<Longrightarrow> k \<in> set (drop (length row) fieldnames) \<Longrightarrow>
   dict_row fieldnames row (KStr k) = Some VNone"
  by (simp add: dict_row_def Let_def fold_restval_in)


text \<open>
  Claim C6 (under a detected header, a row with a different number of columns still
  becomes a record: surplus columns are dropped and missing columns leave their field
  names out of the record's keys). As stated it fails: a row that is one column short
  yields a record that has the missing field name among its keys, with the value \<open>None\<close>.
\<close>

theorem header_row_mismatch_counterexample:
  "read_csv_files
     [''staff.csv'' \<mapsto>
        \<lparr>utf8 = Utf8Text True [[''name'', ''position'', ''performance''], [''Petr'', ''Manager'']] [],
         cp1251 = None\<rparr>]
     [''staff.csv''] []
   = Inr [[KStr ''name'' \<mapsto> VStr ''Petr'', KStr ''position'' \<mapsto> VStr ''Manager'',
           KStr ''performance'' \<mapsto> VNone]]"
  by (simp add: read_file_def DictReader_def dict_row_def dict_zip_def)

text \<open>
  Claim C6 as amended: under a detected header every row that has at least one column
  becomes a record and nothing aborts (rows without columns are skipped); the field-name
  keys of every record are exactly the header's field names; the surplus columns of a
  longer row are kept as a list under the key \<open>None\<close>; the field names that a shorter row
  does not reach are present with the value \<open>None\<close>.
\<close>

theorem header_row_mismatch:
  assumes "utf8 f = Utf8Text True (fieldnames # rows) excel"
  shows "read_file file_path f =
           Inr (map (dict_row fieldnames) (filter (\<lambda>row. row \<noteq> []) rows))
         \<and> (\<forall>row k. KStr k \<in> dom (dict_row fieldnames row) \<longleftrightarrow> k \<in> set fieldnames)
         \<and> (\<forall>row. length fieldnames < length row \<longrightarrow>
               dict_row fieldnames row KNone = Some (VList (drop (length fieldnames) row)))
         \<and> (\<forall>row. length row < length fieldnames \<longrightarrow>
               (\<forall>k \<in> set (drop (length row) fieldnames).
                  dict_row fieldnames row (KStr k) = Some VNone))"
  using assms
  by (simp add: read_file_def DictReader_def dict_row_field_keys dict_row_surplus
      dict_row_missing)

text \<open>The amended C6 on a header with a short row, a blank row and a long row.\<close>

theorem header_row_mismatch_witness:
  "read_file ''staff.csv''
     \<lparr>utf8 = Utf8Text True [[''name'', ''position''], [''Petr''], [], [''Anna'', ''Dev'', ''x'']] [],
      cp1251 = None\<rparr>
   = Inr [dict_row [''name'', ''position''] [''Petr''],
          dict_row [''name'', ''position''] [''Anna'', ''Dev'', ''x'']]
   \<and> dict_row [''name'', ''position''] [''Petr''] (KStr ''position'') = Some VNone
   \<and> dict_row [''name'', ''position''] [''Anna'', ''Dev'', ''x''] KNone = Some (VList [''x''])"
  using header_row_mismatch
    [of "\<lparr>utf8 = Utf8Text True [[''name'', ''position''], [''Petr''], [], [''Anna'', ''Dev'', ''x'']] [],
          cp1251 = None\<rparr>"
        "[''name'', ''position'']" "[[''Petr''], [], [''Anna'', ''Dev'', ''x'']]" "[]" "''staff.csv''"]
  by (simp add: dict_row_def dict_zip_def)

lemma read_csv_files_first_failure:
  assumes "p \<in> set file_paths" and "fs p = None"
  shows "\<exists>ok q rest. file_paths = ok @ q # rest
           \<and> (\<forall>r \<in> set ok. \<exists>f d. fs r = Some f \<and> read_file r f = Inr d)
           \<and> ((fs q = None \<and> read_csv_files fs file_paths all_data = Inl (FileNotFoundError q))
              \<or> (\<exists>f e. fs q = Some f \<and> read_file q f = Inl e
                     \<and> read_csv_files fs file_paths all_data = Inl e))"
  using assms
proof (induction file_paths arbitrary: all_data)
  case Nil
  then show ?case by simp
next
  case (Cons a as)
  show ?case
  proof (cases "fs a")
    case None
    then have "a # as = [] @ a # as
        \<and> (\<forall>r \<in> set []. \<exists>f d. fs r = Some f \<and> read_file r f = Inr d)
        \<and> (fs a = None \<and> read_csv_files fs (a # as) all_data = Inl (FileNotFoundError a))"
      by simp
    then show ?thesis by blast
  next
    case (Some f)
    show ?thesis
    proof (cases "read_file a f")
      case (Inl e)
      with Some have "a # as = [] @ a # as
          \<and> (\<forall>r \<in> set []. \<exists>f d. fs r = Some f \<and> read_file r f = Inr d)
          \<and> (fs a = Some f \<and> read_file a f = Inl e \<and> read_csv_files fs (a # as) all_data = Inl e)"
        by simp
      then show ?thesis by blast
    next
      case (Inr d)
      have "a \<noteq> p" using Some Cons.prems(2) by auto
      then have "p \<in> set as" using Cons.prems(1) by simp
      from Cons.IH [OF this Cons.prems(2), of "all_data @ d"]
      obtain ok q rest where as: "as = ok @ q # rest"
        and ok: "\<forall>r \<in> set ok. \<exists>f d. fs r = Some f \<and> read_file r f = Inr d"
        and res: "(fs q = None \<and> read_csv_files fs as (all_data @ d) = Inl (FileNotFoundError q))
              \<or> (\<exists>f e. fs q = Some f \<and> read_file q f = Inl e
                     \<and> read_csv_files fs as (all_data @ d) = Inl e)"
        by blast
      have step: "read_csv_files fs (a # as) all_data = read_csv_files fs as (all_data @ d)"
        using Some Inr by simp
      have "a # as = (a # ok) @ q # rest" using as by simp
      moreover have "\<forall>r \<in> set (a # ok). \<exists>f d. fs r = Some f \<and> read_file r f = Inr d"
        using ok Some Inr by auto
      ultimately show ?thesis using res step by metis
    qed
  qed
qed

lemma read_csv_files_first_missing:
  "fs p = None \<Longrightarrow> \<forall>q \<in> set before. \<exists>f d. fs q = Some f \<and> read_file q f = Inr d \<Longrightarrow>
   read_csv_files fs (before @ p # rest) all_data = Inl (FileNotFoundError p)"
  by (induction before arbitrary: all_data) auto

text \<open>
  Claim C8 (a path that does not exist makes ingestion fail with \<open>NotFound\<close>, and no
  record set is returned). As stated it fails: the paths are visited in order, and an
  earlier file that cannot be parsed raises its own error before the missing path is
  reached.
\<close>

theorem missing_path_counterexample:
  "read_csv_files [''bad.csv'' \<mapsto> \<lparr>utf8 = CsvError, cp1251 = None\<rparr>]
     [''bad.csv'', ''missing.csv''] []
   = Inl (ValueError (CsvReadError ''bad.csv''))"
  by (simp add: read_file_def)

text \<open>
  Claim C8 as amended: when some path does not exist, ingestion returns an error and no
  records, whatever was read before. The error is that of the first path that is
  missing or cannot be read, every path before it having been read successfully:
  \<open>FileNotFoundError\<close> for that path when it is a missing one, otherwise the error that
  reading it raises. In particular it is \<open>FileNotFoundError\<close> for a missing path when
  every path before it was read successfully.
\<close>

theorem missing_path_fails:
  "(p \<in> set file_paths \<and> fs p = None \<longrightarrow>
      (\<exists>ok q rest. file_paths = ok @ q # rest
         \<and> (\<forall>r \<in> set ok. \<exists>f d. fs r = Some f \<and> read_file r f = Inr d)
         \<and> ((fs q = None \<and> read_csv_files fs file_paths all_data = Inl (FileNotFoundError q))
            \<or> (\<exists>f e. fs q = Some f \<and> read_file q f = Inl e
                   \<and> read_csv_files fs file_paths all_data = Inl e))))
   \<and> (fs p = None \<and> (\<forall>q \<in> set before. \<exists>f d. fs q = Some f \<and> read_file q f = Inr d) \<longrightarrow>
      read_csv_files fs (before @ p # rest) all_data = Inl (FileNotFoundError p))"
  using read_csv_files_first_failure [of p file_paths fs all_data]
    read_csv_files_first_missing [of fs p before rest all_data]
  by blast

text \<open>
  The amended C8 with a readable file before and after the missing path, and with a
  file that cannot be parsed before it.
\<close>

theorem missing_path_fails_witness:
  "read_csv_files
     [''a.csv'' \<mapsto> \<lparr>utf8 = Utf8Text True [[''position'', ''performance''], [''Dev'', ''1'']] [],
                      cp1251 = None\<rparr>]
     ([''a.csv''] @ ''missing.csv'' # [''a.csv'']) []
   = Inl (FileNotFoundError ''missing.csv'')
   \<and> read_csv_files
     [''a.csv'' \<mapsto> \<lparr>utf8 = Utf8Text True [[''position'', ''performance''], [''Dev'', ''1'']] [],
                      cp1251 = None\<rparr>,
      ''bad.csv'' \<mapsto> \<lparr>utf8 = DecodeError, cp1251 = None\<rparr>]
     [''a.csv'', ''bad.csv'', ''missing.csv''] []
   = Inl (ValueError (BadEncoding ''bad.csv''))"
  using missing_path_fails
    [of "''missing.csv''" "[''a.csv'', ''missing.csv'', ''a.csv'']"
        "[''a.csv'' \<mapsto> \<lparr>utf8 = Utf8Text True [[''position'', ''performance''], [''Dev'', ''1'']] [],
                          cp1251 = None\<rparr>]"
        "[]" "[''a.csv'']" "[''a.csv'']"]
    missing_path_fails
    [of "''missing.csv''" "[''a.csv'', ''bad.csv'', ''missing.csv'']"
        "[''a.csv'' \<mapsto> \<lparr>utf8 = Utf8Text True [[''position'', ''performance''], [''Dev'', ''1'']] [],
                          cp1251 = None\<rparr>,
          ''bad.csv'' \<mapsto> \<lparr>utf8 = DecodeError, cp1251 = None\<rparr>]"
        "[]" "[]" "[]"]
  by (simp add: read_file_def)

section \<open>Exit codes\<close>

text \<open>
  Claim C3 (zero input records are reported and the exit code is 0). As stated it fails:
  for a file that holds a header and no data row, \<open>main\<close> prints the warning and returns 1.
\<close>

theorem zero_input_records_counterexample:
  "main py_ops
     [''staff.csv'' \<mapsto> \<lparr>utf8 = Utf8Text True [[''position'', ''performance'']] [], cp1251 = None\<rparr>]
     initial_reports
     \<lparr>files = [''staff.csv''], report = ''performance'', output_format = Table,
      list_reports_flag = False\<rparr>
   = (NoDataWarning, 1)"
  by (simp add: main_def read_file_def DictReader_def)

text \<open>
  Claim C3 as amended: when ingestion succeeds with zero records, \<open>main\<close> prints the
  warning and returns 1; when there are records and the report has zero rows, it prints
  the note and returns 0.
\<close>

theorem zero_records_and_zero_rows:
  "(\<not> list_reports_flag a \<and> read_csv_files fs (files a) [] = Inr [] \<longrightarrow>
      main ops fs reports a = (NoDataWarning, 1))
   \<and> (\<not> list_reports_flag a \<and> read_csv_files fs (files a) [] = Inr data \<and> data \<noteq> []
        \<and> get_report reports (report a) = Inr g \<and> report_generate ops g data = Inr (hs, []) \<longrightarrow>
      main ops fs reports a = (EmptyReportNote, 0))"
  by (simp add: main_def)

text \<open>The amended C3 on a file with a header only and on a file whose only row is skipped.\<close>

theorem zero_records_and_zero_rows_witness:
  "main py_ops
     [''staff.csv'' \<mapsto> \<lparr>utf8 = Utf8Text True [[''position'', ''performance'']] [], cp1251 = None\<rparr>]
     initial_reports
     \<lparr>files = [''staff.csv''], report = ''Performance'', output_format = Table,
      list_reports_flag = False\<rparr>
   = (NoDataWarning, 1)
   \<and> main py_ops
     [''staff.csv'' \<mapsto> \<lparr>utf8 = Utf8Text True [[''position'', ''performance''], [''Dev'', '' '']] [],
                          cp1251 = None\<rparr>]
     initial_reports
     \<lparr>files = [''staff.csv''], report = ''Performance'', output_format = Table,
      list_reports_flag = False\<rparr>
   = (EmptyReportNote, 0)"
proof -
  let ?a = "\<lparr>files = [''staff.csv''], report = ''Performance'', output_format = Table,
      list_reports_flag = False\<rparr>"
  let ?fs1 = "[''staff.csv'' \<mapsto> \<lparr>utf8 = Utf8Text True [[''position'', ''performance'']] [], cp1251 = None\<rparr>]"
  let ?fs2 = "[''staff.csv'' \<mapsto> \<lparr>utf8 = Utf8Text True [[''position'', ''performance''], [''Dev'', '' '']] [],
                          cp1251 = None\<rparr>]"
  let ?data = "[dict_row [''position'', ''performance''] [''Dev'', '' '']]"
  have r1: "read_csv_files ?fs1 (files ?a) [] = Inr []"
    by (simp add: read_file_def DictReader_def)
  have r2: "read_csv_files ?fs2 (files ?a) [] = Inr ?data"
    by (simp add: read_file_def DictReader_def)
  have g: "get_report initial_reports (report ?a) = Inr PerformanceReport"
    by (simp add: get_report_def initial_reports_def lower_def lower_char_def uppercase_def lowercase_def)
  have gen: "report_generate py_ops PerformanceReport ?data = Inr (headers, [])"
    by (simp add: report_generate_def generate_def get_strip_def dict_row_def dict_zip_def
        strip_def py_isspace_def report_rows_def list_sort_reverse_def stable_sort_def)
  have "main py_ops ?fs1 initial_reports ?a = (NoDataWarning, 1)"
    using zero_records_and_zero_rows [of ?a ?fs1 py_ops initial_reports] r1 by simp
  moreover have "main py_ops ?fs2 initial_reports ?a = (EmptyReportNote, 0)"
    using zero_records_and_zero_rows [of ?a ?fs2 py_ops initial_reports ?data PerformanceReport headers]
      r2 g gen by simp
  ultimately show ?thesis by simp
qed

section \<open>The report of \<open>generate\<close>\<close>

subsection \<open>The first loop collects the samples of the valid records\<close>

lemma strip_Nil [simp]: "strip [] = []"
  by (simp add: strip_def)

lemma get_strip_str:
  "str_field row k \<Longrightarrow> get_strip row k = Inr (field_text row k)"
  by (auto simp: str_field_def get_strip_def field_text_def split: option.splits pyval.splits)

lemma get_strip_not_str:
  "\<not> str_field row k \<Longrightarrow> get_strip row k = Inl AttributeError"
  by (auto simp: str_field_def get_strip_def split: option.splits pyval.splits)

lemma get_strip_cases:
  "get_strip row k = (if str_field row k then Inr (field_text row k) else Inl AttributeError)"
  by (simp add: get_strip_str get_strip_not_str)

lemma collect_ok:
  "list_all str_valued data \<Longrightarrow>
   collect ops data pd = Inr (add_samples (samples ops data) pd)"
proof (induction data arbitrary: pd)
  case Nil
  show ?case by (simp add: add_samples_def samples_def map_filter_simps)
next
  case (Cons row data)
  then show ?case
    by (auto simp: add_samples_def samples_def map_filter_simps str_valued_def get_strip_cases
        sample_of_def split: option.splits)
qed

lemma collect_err:
  "\<not> list_all str_valued data \<Longrightarrow> collect ops data pd = Inl AttributeError"
proof (induction data arbitrary: pd)
  case Nil
  then show ?case by simp
next
  case (Cons row data)
  then show ?case
    by (auto simp: str_valued_def get_strip_cases split: option.splits)
qed

lemma first_occ_snoc:
  "first_occ (xs @ [x]) = (if x \<in> set xs then first_occ xs else first_occ xs @ [x])"
  by (simp add: first_occ_def)

lemma set_first_occ [simp]: "set (first_occ xs) = set xs"
  by (simp add: first_occ_def)

lemma distinct_first_occ [simp]: "distinct (first_occ xs)"
  by (simp add: first_occ_def)

lemma append_sample_map_in:
  "distinct ks \<Longrightarrow> k \<in> set ks \<Longrightarrow>
   append_sample k v (map (\<lambda>j. (j, g j)) ks) =
   map (\<lambda>j. (j, if j = k then g j @ [v] else g j)) ks"
  by (induction ks) auto

lemma append_sample_map_notin:
  "k \<notin> set ks \<Longrightarrow>
   append_sample k v (map (\<lambda>j. (j, g j)) ks) = map (\<lambda>j. (j, g j)) ks @ [(k, [v])]"
  by (induction ks) auto

lemma group_of_snoc:
  "group_of (ss @ [(k, v)]) j = (if j = k then group_of ss j @ [v] else group_of ss j)"
  by (simp add: group_of_def)

lemma group_of_notin: "k \<notin> fst ` set ss \<Longrightarrow> group_of ss k = []"
  by (induction ss) (auto simp: group_of_def)

lemma groups_of_snoc:
  "groups_of (ss @ [(k, v)]) = append_sample k v (groups_of ss)"
proof (cases "k \<in> fst ` set ss")
  case True
  then show ?thesis
    by (simp add: groups_of_def first_occ_snoc append_sample_map_in group_of_snoc)
next
  case False
  then show ?thesis
    by (simp add: groups_of_def first_occ_snoc append_sample_map_notin group_of_snoc
        group_of_notin) (auto simp: image_iff)
qed

lemma add_samples_Nil: "add_samples ss [] = groups_of ss"
proof (induction ss rule: rev_induct)
  case Nil
  show ?case by (simp add: add_samples_def groups_of_def first_occ_def)
next
  case (snoc s ss)
  then show ?case
    by (cases s) (simp add: add_samples_def groups_of_snoc)
qed

lemma swo_on_subset: "swo_on lt A \<Longrightarrow> B \<subseteq> A \<Longrightarrow> swo_on lt B"
  unfolding swo_on_def by blast

lemma mset_insort_lt: "mset (insort_lt lt key x ys) = add_mset x (mset ys)"
  by (induction ys) auto

lemma mset_stable_sort: "mset (stable_sort lt key xs) = mset xs"
  by (induction xs) (auto simp: stable_sort_def mset_insort_lt)

lemma mset_list_sort_reverse: "mset (list_sort_reverse lt key xs) = mset xs"
  by (simp add: list_sort_reverse_def mset_stable_sort)

lemma set_list_sort_reverse: "set (list_sort_reverse lt key xs) = set xs"
  using mset_list_sort_reverse [of lt key xs] by (metis set_mset_mset)

lemma set_insort_lt: "set (insort_lt lt key x ys) = insert x (set ys)"
  using mset_insort_lt [of lt key x ys] by (metis set_mset_mset set_mset_add_mset_insert)

lemma sorted_insort_lt:
  assumes "swo_on lt (key ` insert x (set ys))"
    and "sorted_wrt (\<lambda>a b. \<not> lt (key b) (key a)) ys"
  shows "sorted_wrt (\<lambda>a b. \<not> lt (key b) (key a)) (insort_lt lt key x ys)"
  using assms
proof (induction ys)
  case Nil
  show ?case by simp
next
  case (Cons y ys)
  have sub: "swo_on lt (key ` insert x (set ys))"
    by (rule swo_on_subset [OF Cons.prems(1)]) auto
  have ih: "sorted_wrt (\<lambda>a b. \<not> lt (key b) (key a)) (insort_lt lt key x ys)"
    using Cons.IH [OF sub] Cons.prems(2) by simp
  show ?case
  proof (cases "lt (key y) (key x)")
    case True
    have "\<not> lt (key x) (key y)"
      using Cons.prems(1) True unfolding swo_on_def by auto
    with True ih Cons.prems(2) show ?thesis
      by (auto simp: set_insort_lt)
  next
    case False
    have "\<not> lt (key z) (key x)" if "z \<in> set ys" for z
    proof
      assume zx: "lt (key z) (key x)"
      have "\<not> lt (key z) (key y)"
        using Cons.prems(2) that by auto
      moreover have "lt (key z) (key y) \<or> lt (key y) (key x)"
        using Cons.prems(1) zx that unfolding swo_on_def by auto
      ultimately show False using False by blast
    qed
    with False Cons.prems(2) show ?thesis by auto
  qed
qed

lemma sorted_stable_sort:
  "swo_on lt (key ` set xs) \<Longrightarrow>
   sorted_wrt (\<lambda>a b. \<not> lt (key b) (key a)) (stable_sort lt key xs)"
proof (induction xs)
  case Nil
  show ?case by (simp add: stable_sort_def)
next
  case (Cons x xs)
  have sub: "swo_on lt (key ` set xs)"
    by (rule swo_on_subset [OF Cons.prems]) auto
  have "set (stable_sort lt key xs) = set xs"
    using mset_stable_sort [of lt key xs] by (metis set_mset_mset)
  then have "swo_on lt (key ` insert x (set (stable_sort lt key xs)))"
    using Cons.prems by simp
  from sorted_insort_lt [OF this Cons.IH [OF sub]]
  show ?case by (simp add: stable_sort_def)
qed

lemma sorted_list_sort_reverse:
  assumes "swo_on lt (key ` set xs)"
  shows "sorted_wrt (\<lambda>a b. \<not> lt (key a) (key b)) (list_sort_reverse lt key xs)"
proof -
  have "swo_on lt (key ` set (rev xs))" using assms by simp
  from sorted_stable_sort [OF this] show ?thesis
    by (simp add: list_sort_reverse_def sorted_wrt_rev)
qed

lemma stable_sort_run:
  "successively (\<lambda>a b. \<not> lt (key b) (key a)) xs \<Longrightarrow> stable_sort lt key xs = xs"
proof (induction xs)
  case Nil
  show ?case by (simp add: stable_sort_def)
next
  case (Cons x xs)
  then have "stable_sort lt key xs = xs"
    by (cases xs) auto
  then have "stable_sort lt key (x # xs) = insort_lt lt key x xs"
    by (simp add: stable_sort_def)
  with Cons.prems show ?case by (cases xs) auto
qed

lemma collect_Inr_str_valued:
  "collect ops data pd = Inr pd' \<Longrightarrow> list_all str_valued data"
  using collect_err [of data ops pd] by auto

lemma collect_groups:
  "collect ops data [] = Inr pd \<Longrightarrow> pd = groups_of (samples ops data)"
  using collect_ok [of data ops "[]"] collect_Inr_str_valued [of ops data "[]" pd]
  by (simp add: add_samples_Nil)

lemma group_of_nonempty: "k \<in> fst ` set ss \<Longrightarrow> group_of ss k \<noteq> []"
  by (induction ss) (auto simp: group_of_def)

lemma group_of_nonempty_iff: "group_of ss k \<noteq> [] \<longleftrightarrow> k \<in> fst ` set ss"
  using group_of_nonempty [of k ss] group_of_notin [of k ss] by blast

lemma report_rows_groups:
  "report_rows ops (groups_of ss) =
   map (\<lambda>k. (k, avg_performance ops (group_of ss k))) (first_occ (map fst ss))"
proof -
  have "filter (\<lambda>(position, performances). performances \<noteq> []) (groups_of ss) = groups_of ss"
    by (auto simp: groups_of_def filter_id_conv group_of_nonempty_iff)
  then show ?thesis
    by (simp add: report_rows_def groups_of_def comp_def)
qed

lemma generate_rows:
  assumes "generate ops data = Inr (hs, rows)"
  shows "hs = headers"
    and "rows = map row_cells (list_sort_reverse (flt ops) snd
           (map (\<lambda>k. (k, avg_performance ops (samples_for ops data k)))
              (first_occ (map fst (samples ops data)))))"
proof -
  from assms obtain pd where pd: "collect ops data [] = Inr pd"
    by (auto simp: generate_def split: sum.splits)
  from collect_groups [OF pd] have "pd = groups_of (samples ops data)" .
  with assms pd show "hs = headers"
    and "rows = map row_cells (list_sort_reverse (flt ops) snd
           (map (\<lambda>k. (k, avg_performance ops (samples_for ops data k)))
              (first_occ (map fst (samples ops data)))))"
    by (auto simp: generate_def report_rows_groups samples_for_def)
qed

subsection \<open>The claims about the report\<close>

lemma cell_nums_row_cells [simp]: "cell_nums (row_cells r) = [snd r]"
  by (simp add: row_cells_def)

lemma row_lt_row_cells [simp]: "row_lt lt (row_cells r) (row_cells s) = lt (snd r) (snd s)"
  by (simp add: row_lt_def)

lemma concat_cell_nums: "concat (map cell_nums (map row_cells prs)) = map snd prs"
  by (induction prs) auto

lemma keys_with_samples:
  "{k. samples_for ops data k \<noteq> []} = set (first_occ (map fst (samples ops data)))"
  by (auto simp: samples_for_def group_of_nonempty_iff)

text \<open>
  Claim C1 as amended: whenever \<open>generate\<close> returns, the headers are
  \<open>["Position", "Avg Performance"]\<close>; the rows are, each exactly once, the rows
  \<open>[key, round(sum(samples) / len(samples), 2)]\<close> of the trimmed category keys that have
  at least one sample of a valid record; and the rows are in descending order of the
  rounded mean (no row is followed by a row with a larger one) provided the float
  comparison orders the rounded means of the report, as it does when none of them is NaN.
\<close>

theorem generate_report:
  assumes "generate ops data = Inr (hs, rows)"
  shows "hs = [''Position'', ''Avg Performance'']
       \<and> mset rows =
           image_mset (\<lambda>k. [CStr k, CNum (avg_performance ops (samples_for ops data k))])
             (mset_set {k. samples_for ops data k \<noteq> []})
       \<and> (swo_on (flt ops) (set (concat (map cell_nums rows))) \<longrightarrow>
            sorted_wrt (\<lambda>r s. \<not> row_lt (flt ops) r s) rows)"
proof -
  let ?keys = "first_occ (map fst (samples ops data))"
  let ?f = "\<lambda>k. (k, avg_performance ops (samples_for ops data k))"
  let ?prs = "list_sort_reverse (flt ops) snd (map ?f ?keys)"
  have hs: "hs = headers" and rows: "rows = map row_cells ?prs"
    using generate_rows [OF assms] by auto
  have "mset rows = image_mset row_cells (mset (map ?f ?keys))"
    by (simp add: rows mset_list_sort_reverse)
  also have "\<dots> = image_mset (\<lambda>k. row_cells (?f k)) (mset ?keys)"
    by (simp add: multiset.map_comp comp_def)
  also have "mset ?keys = mset_set {k. samples_for ops data k \<noteq> []}"
    unfolding keys_with_samples
    by (rule mset_set_set [symmetric]) (rule distinct_first_occ)
  finally have m: "mset rows =
      image_mset (\<lambda>k. [CStr k, CNum (avg_performance ops (samples_for ops data k))])
        (mset_set {k. samples_for ops data k \<noteq> []})"
    by (simp add: row_cells_def)
  have srt: "sorted_wrt (\<lambda>r s. \<not> row_lt (flt ops) r s) rows"
    if swo: "swo_on (flt ops) (set (concat (map cell_nums rows)))"
  proof -
    have "set (concat (map cell_nums rows)) = snd ` set (map ?f ?keys)"
      by (simp only: rows concat_cell_nums set_map set_list_sort_reverse)
    with swo have "swo_on (flt ops) (snd ` set (map ?f ?keys))" by simp
    from sorted_list_sort_reverse [OF this]
    show ?thesis by (simp add: rows sorted_wrt_map)
  qed
  from hs m srt show ?thesis by (simp add: headers_def)
qed

text \<open>
  Claim C7: in the report that \<open>generate\<close> returns, every row is as long as the list of
  headers, and no two rows have the same group key in their first cell.
\<close>

theorem generate_invariants:
  assumes "generate ops data = Inr (hs, rows)"
  shows "(\<forall>row \<in> set rows. length row = length hs) \<and> distinct (map hd rows)"
proof -
  let ?keys = "first_occ (map fst (samples ops data))"
  let ?f = "\<lambda>k. (k, avg_performance ops (samples_for ops data k))"
  let ?prs = "list_sort_reverse (flt ops) snd (map ?f ?keys)"
  have hs: "hs = headers" and rows: "rows = map row_cells ?prs"
    using generate_rows [OF assms] by auto
  have len: "\<forall>row \<in> set rows. length row = length hs"
    by (auto simp: rows hs headers_def row_cells_def)
  have "mset (map fst ?prs) = mset ?keys"
    using mset_list_sort_reverse [of "flt ops" snd "map ?f ?keys"]
    by (metis (no_types, lifting) mset_map multiset.map_comp comp_def fst_conv multiset.map_ident
        image_mset_cong)
  then have "distinct (map fst ?prs)"
    using distinct_first_occ [of "map fst (samples ops data)"]
    by (metis mset_eq_imp_distinct_iff)
  then have "distinct (map (\<lambda>r. CStr (fst r) :: 'a cell) ?prs)"
    by (simp add: distinct_map inj_on_def)
  moreover have "map hd rows = map (\<lambda>r. CStr (fst r)) ?prs"
    by (simp add: rows row_cells_def)
  ultimately show ?thesis using len by simp
qed

text \<open>
  Claim C10: on a list of records in which whatever is stored under \<open>position\<close> and
  \<open>performance\<close> is a string, \<open>generate\<close> returns the headers and some rows; a list with
  a record that stores something else under one of the two keys is outside that
  guarantee: there \<open>generate\<close> raises \<open>AttributeError\<close>.
\<close>

theorem generate_total_on_strings:
  "(list_all str_valued data \<longrightarrow> (\<exists>rows. generate ops data = Inr (headers, rows)))
   \<and> (\<not> list_all str_valued data \<longrightarrow> generate ops data = Inl AttributeError)"
  using collect_ok [of data ops "[]"] collect_err [of data ops "[]"]
  by (auto simp: generate_def)

text \<open>
  Claim C2 (a malformed record never makes \<open>generate\<close> raise; it is skipped). The code
  calls \<open>.strip()\<close> on the value before its \<open>try\<close>, so a record whose numeric field is
  \<open>None\<close>, which is what ingestion produces for a row that is one column short, raises
  \<open>AttributeError\<close> although the handler names \<open>TypeError\<close> for such values. For lists
  of string-valued records the tolerance holds: see \<open>generate_skips_invalid\<close> below.
\<close>

theorem generate_raises_on_short_row:
  "generate ops [dict_row [''name'', ''position'', ''performance''] [''Petr'', ''Manager'']]
   = Inl AttributeError"
  by (simp add: generate_def get_strip_def dict_row_def dict_zip_def strip_def py_isspace_def)








text \<open>
  On string-valued records the invalid ones are skipped: the report of a list is the
  report of its valid records.
\<close>

lemma generate_skips_invalid:
  assumes "list_all str_valued data"
  shows "generate ops data = generate ops (filter (valid ops) data)"
proof -
  have sv: "list_all str_valued (filter (valid ops) data)"
    using assms by (induction data) auto
  have "samples ops (filter (valid ops) data) = samples ops data"
    by (induction data) (auto simp: samples_def valid_def split: option.splits)
  with collect_ok [OF assms, of ops "[]"] collect_ok [OF sv, of ops "[]"]
  show ?thesis by (simp add: generate_def)
qed

subsection \<open>Evaluating binary64 operations\<close>

lemma bit_length_shift:
  "2 ^ k \<le> n \<Longrightarrow> bit_length n = k + bit_length (n div 2 ^ k)"
proof (induction k arbitrary: n)
  case 0
  show ?case by simp
next
  case (Suc k)
  have "(0::nat) < 2 ^ Suc k" by simp
  with Suc.prems have n0: "n \<noteq> 0" by linarith
  have "2 ^ k \<le> n div 2" using Suc.prems by simp
  from Suc.IH [OF this] have "bit_length (n div 2) = k + bit_length (n div 2 div 2 ^ k)" .
  moreover have "n div 2 div 2 ^ k = n div 2 ^ Suc k"
    by (simp add: div_mult2_eq)
  moreover have "bit_length n = 1 + bit_length (n div 2)"
    using n0 by (subst bit_length.simps) simp
  ultimately show ?case by simp
qed

lemma bit_length_unfold:
  "bit_length n =
     (if n = 0 then 0
      else if 2 ^ 256 \<le> n then 256 + bit_length (n div 2 ^ 256)
      else if 2 ^ 32 \<le> n then 32 + bit_length (n div 2 ^ 32)
      else if 2 ^ 4 \<le> n then 4 + bit_length (n div 2 ^ 4)
      else 1 + bit_length (n div 2))"
proof -
  have "bit_length n = 1 + bit_length (n div 2)" if "n \<noteq> 0"
    using that by (subst bit_length.simps) simp
  moreover have "bit_length 0 = 0"
    by (subst bit_length.simps) simp
  ultimately show ?thesis
    using bit_length_shift [of 256 n] bit_length_shift [of 32 n] bit_length_shift [of 4 n]
    by (simp only: split: if_split) blast
qed

lemmas double_eval = round_to_double_def round_half_even_def bit_length_unfold of_scaled_def
  decimal_def

text \<open>Without NaN the comparison of floats is a strict weak order.\<close>

lemma py_lt_common_exponent:
  assumes "E \<le> e1" and "E \<le> e2"
  shows "py_lt (Fin m1 e1) (Fin m2 e2) \<longleftrightarrow> m1 * 2 ^ nat (e1 - E) < m2 * 2 ^ nat (e2 - E)"
proof -
  let ?d = "nat (min e1 e2 - E)"
  have p1: "(2::int) ^ nat (e1 - E) = 2 ^ nat (e1 - min e1 e2) * 2 ^ ?d"
    using assms by (simp add: power_add [symmetric] nat_add_distrib [symmetric])
  have p2: "(2::int) ^ nat (e2 - E) = 2 ^ nat (e2 - min e1 e2) * 2 ^ ?d"
    using assms by (simp add: power_add [symmetric] nat_add_distrib [symmetric])
  have "m1 * 2 ^ nat (e1 - E) < m2 * 2 ^ nat (e2 - E) \<longleftrightarrow>
        (m1 * 2 ^ nat (e1 - min e1 e2)) * 2 ^ ?d < (m2 * 2 ^ nat (e2 - min e1 e2)) * 2 ^ ?d"
    by (simp only: p1 p2 mult.assoc)
  also have "\<dots> \<longleftrightarrow> m1 * 2 ^ nat (e1 - min e1 e2) < m2 * 2 ^ nat (e2 - min e1 e2)"
    by (rule mult_less_cancel_right_pos) simp
  finally show ?thesis by simp
qed

lemma py_lt_asym: "py_lt a b \<Longrightarrow> \<not> py_lt b a"
  by (cases a; cases b) (auto simp: min.commute)

lemma py_lt_negtrans:
  assumes "a \<noteq> NaN" "b \<noteq> NaN" "c \<noteq> NaN" "py_lt a c"
  shows "py_lt a b \<or> py_lt b c"
proof (cases a; cases b; cases c)
  fix m1 e1 m2 e2 m3 e3
  assume a: "a = Fin m1 e1" and b: "b = Fin m2 e2" and c: "c = Fin m3 e3"
  let ?E = "min e1 (min e2 e3)"
  have "py_lt a c \<longleftrightarrow> m1 * 2 ^ nat (e1 - ?E) < m3 * 2 ^ nat (e3 - ?E)"
    unfolding a c by (rule py_lt_common_exponent) auto
  moreover have "py_lt a b \<longleftrightarrow> m1 * 2 ^ nat (e1 - ?E) < m2 * 2 ^ nat (e2 - ?E)"
    unfolding a b by (rule py_lt_common_exponent) auto
  moreover have "py_lt b c \<longleftrightarrow> m2 * 2 ^ nat (e2 - ?E) < m3 * 2 ^ nat (e3 - ?E)"
    unfolding b c by (rule py_lt_common_exponent) auto
  ultimately show ?thesis using assms(4) by linarith
qed (use assms in auto)

lemma py_lt_swo_on: "NaN \<notin> A \<Longrightarrow> swo_on py_lt A"
  unfolding swo_on_def
  by (metis py_lt_asym py_lt_negtrans)

subsection \<open>Reports on concrete records\<close>

lemmas parse_eval = py_float_def float_isspace_def lower_def lower_char_def
  uppercase_def lowercase_def number_def digitpart_def digit_of_def exponent_def
  nat_of_digits_def Let_def

lemmas generate_eval = generate_def get_strip_def report_rows_def avg_performance_def
  py_ops_def list_sort_reverse_def stable_sort_def row_cells_def py_sum_def py_div_len_def
  strip_def py_isspace_def

lemma float_1: "py_float ''1'' = Some (Fin 4503599627370496 (- 52))"
  by (simp add: parse_eval double_eval)

lemma float_2: "py_float ''2'' = Some (Fin 4503599627370496 (- 51))"
  by (simp add: parse_eval double_eval)

lemma float_nan: "py_float ''nan'' = Some NaN"
  by (simp add: parse_eval)

lemma float_85_5: "py_float ''85.5'' = Some (Fin 6016527627190272 (- 46))"
  by (simp add: parse_eval double_eval)

lemma float_78_3: "py_float ''78.3'' = Some (Fin 5509872669111091 (- 46))"
  by (simp add: parse_eval double_eval)

lemma float_92_0: "py_float ''92.0'' = Some (Fin 6473924464345088 (- 46))"
  by (simp add: parse_eval double_eval)

lemma float_88_0: "py_float ''88.0'' = Some (Fin 6192449487634432 (- 46))"
  by (simp add: parse_eval double_eval)

lemma float_invalid: "py_float ''invalid'' = None"
  by (simp add: parse_eval)

lemma float_81_9: "py_float ''81.9'' = Some (Fin 5763200148150682 (- 46))"
  by (simp add: parse_eval double_eval)

lemma float_90_0: "py_float ''90.0'' = Some (Fin 6333186975989760 (- 46))"
  by (simp add: parse_eval double_eval)

text \<open>Scenario A of the specification: the rows are Manager 90.0, Developer 81.9.\<close>

lemma scenario_A:
  "generate py_ops
     [[KStr ''position'' \<mapsto> VStr ''Developer'', KStr ''performance'' \<mapsto> VStr ''85.5''],
      [KStr ''position'' \<mapsto> VStr ''Developer'', KStr ''performance'' \<mapsto> VStr ''78.3''],
      [KStr ''position'' \<mapsto> VStr ''Manager'', KStr ''performance'' \<mapsto> VStr ''92.0''],
      [KStr ''position'' \<mapsto> VStr ''Manager'', KStr ''performance'' \<mapsto> VStr ''88.0'']]
   = Inr ([''Position'', ''Avg Performance''],
          [[CStr ''Manager'', CNum (Fin 6333186975989760 (- 46))],
           [CStr ''Developer'', CNum (Fin 5763200148150682 (- 46))]])"
  by (simp add: generate_eval float_85_5 float_78_3 float_92_0 float_88_0 double_eval headers_def)


text \<open>
  Claim C1 (the rows are sorted by rounded mean in descending order, for every record
  list). As stated it fails: \<open>float('nan')\<close> parses, no float is smaller than NaN and NaN
  is smaller than none, so the three rows below are one ascending run for the sort, which
  leaves \<open>A\<close> with 1.0 before \<open>C\<close> with 2.0.
\<close>

theorem nan_rows_not_sorted:
  "generate py_ops
     [[KStr ''position'' \<mapsto> VStr ''A'', KStr ''performance'' \<mapsto> VStr ''1''],
      [KStr ''position'' \<mapsto> VStr ''B'', KStr ''performance'' \<mapsto> VStr ''nan''],
      [KStr ''position'' \<mapsto> VStr ''C'', KStr ''performance'' \<mapsto> VStr ''2'']]
   = Inr ([''Position'', ''Avg Performance''],
          [[CStr ''A'', CNum (Fin 4503599627370496 (- 52))],
           [CStr ''B'', CNum NaN],
           [CStr ''C'', CNum (Fin 4503599627370496 (- 51))]])
   \<and> py_lt (Fin 4503599627370496 (- 52)) (Fin 4503599627370496 (- 51))"
  by (simp add: generate_eval float_1 float_2 float_nan double_eval headers_def)

text \<open>The amended C1 on Scenario A: 90.0 and 81.9 are ordered by the comparison.\<close>

theorem generate_report_witness:
  "generate py_ops
     [[KStr ''position'' \<mapsto> VStr ''Developer'', KStr ''performance'' \<mapsto> VStr ''85.5''],
      [KStr ''position'' \<mapsto> VStr ''Developer'', KStr ''performance'' \<mapsto> VStr ''78.3''],
      [KStr ''position'' \<mapsto> VStr ''Manager'', KStr ''performance'' \<mapsto> VStr ''92.0''],
      [KStr ''position'' \<mapsto> VStr ''Manager'', KStr ''performance'' \<mapsto> VStr ''88.0'']]
   = Inr ([''Position'', ''Avg Performance''],
          [[CStr ''Manager'', CNum (Fin 6333186975989760 (- 46))],
           [CStr ''Developer'', CNum (Fin 5763200148150682 (- 46))]])
   \<and> swo_on (flt py_ops)
        (set (concat (map cell_nums
           [[CStr ''Manager'', CNum (Fin 6333186975989760 (- 46))],
            [CStr ''Developer'', CNum (Fin 5763200148150682 (- 46))]])))
   \<and> sorted_wrt (\<lambda>r s. \<not> row_lt (flt py_ops) r s)
        [[CStr ''Manager'', CNum (Fin 6333186975989760 (- 46))],
         [CStr ''Developer'', CNum (Fin 5763200148150682 (- 46))]]"
proof -
  have w: "swo_on (flt py_ops)
        (set (concat (map cell_nums
           [[CStr ''Manager'', CNum (Fin 6333186975989760 (- 46))],
            [CStr ''Developer'', CNum (Fin 5763200148150682 (- 46))]])))"
    by (simp add: py_ops_def py_lt_swo_on)
  from generate_report [OF scenario_A] w scenario_A show ?thesis by blast
qed

text \<open>C7 on Scenario A.\<close>

theorem generate_invariants_witness:
  "generate py_ops
     [[KStr ''position'' \<mapsto> VStr ''Developer'', KStr ''performance'' \<mapsto> VStr ''85.5''],
      [KStr ''position'' \<mapsto> VStr ''Developer'', KStr ''performance'' \<mapsto> VStr ''78.3''],
      [KStr ''position'' \<mapsto> VStr ''Manager'', KStr ''performance'' \<mapsto> VStr ''92.0''],
      [KStr ''position'' \<mapsto> VStr ''Manager'', KStr ''performance'' \<mapsto> VStr ''88.0'']]
   = Inr ([''Position'', ''Avg Performance''],
          [[CStr ''Manager'', CNum (Fin 6333186975989760 (- 46))],
           [CStr ''Developer'', CNum (Fin 5763200148150682 (- 46))]])
   \<and> list_all (\<lambda>row. length row = length [''Position'', ''Avg Performance''])
         [[CStr ''Manager'', CNum (Fin 6333186975989760 (- 46))],
          [CStr ''Developer'', CNum (Fin 5763200148150682 (- 46))]]
   \<and> distinct (map hd [[CStr ''Manager'', CNum (Fin 6333186975989760 (- 46))],
                       [CStr ''Developer'', CNum (Fin 5763200148150682 (- 46))]])"
  using generate_invariants [OF scenario_A] scenario_A by (simp add: list_all_iff)

text \<open>C10 on a list of string-valued records and on a record that holds \<open>None\<close>.\<close>

theorem generate_total_on_strings_witness:
  "list_all str_valued
     [[KStr ''position'' \<mapsto> VStr ''A'', KStr ''performance'' \<mapsto> VStr ''invalid''], Map.empty]
   \<and> (\<exists>rows. generate py_ops
         [[KStr ''position'' \<mapsto> VStr ''A'', KStr ''performance'' \<mapsto> VStr ''invalid''], Map.empty]
        = Inr (headers, rows))
   \<and> \<not> list_all str_valued [[KStr ''position'' \<mapsto> VStr ''A'', KStr ''performance'' \<mapsto> VNone]]
   \<and> generate py_ops [[KStr ''position'' \<mapsto> VStr ''A'', KStr ''performance'' \<mapsto> VNone]]
       = Inl AttributeError"
proof -
  have a: "list_all str_valued
     [[KStr ''position'' \<mapsto> VStr ''A'', KStr ''performance'' \<mapsto> VStr ''invalid''], Map.empty]"
    by (simp add: str_valued_def str_field_def)
  have b: "\<not> list_all str_valued [[KStr ''position'' \<mapsto> VStr ''A'', KStr ''performance'' \<mapsto> VNone]]"
    by (simp add: str_valued_def str_field_def)
  from a b
    generate_total_on_strings
      [of "[[KStr ''position'' \<mapsto> VStr ''A'', KStr ''performance'' \<mapsto> VStr ''invalid''], Map.empty]" py_ops]
    generate_total_on_strings
      [of "[[KStr ''position'' \<mapsto> VStr ''A'', KStr ''performance'' \<mapsto> VNone]]" py_ops]
  show ?thesis by blast
qed

section \<open>Doubling the records\<close>

subsection \<open>Sums and means of copies of a float that are exact\<close>






























subsection \<open>The report of a list followed by itself\<close>











end
